theory Spec2Isabelle
  imports Complex_Main
begin

section \<open>JavaScript values used by the scheduler\<close>

subsection \<open>Strings, trimming and the interval-cron pattern\<close>

text \<open>
  Strings are lists of 8-bit code units. \<open>String.prototype.trim\<close> removes the
  white space and line terminators of ECMAScript from both ends; within 8-bit code units
  these are TAB, LF, VT, FF, CR, SPACE and NBSP.
\<close>

definition is_js_space :: "char \<Rightarrow> bool" where
  "is_js_space c = (of_char c \<in> {9, 10, 11, 12, 13, 32, 160 :: nat})"

definition trim :: "string \<Rightarrow> string" where
  "trim s = rev (dropWhile is_js_space (rev (dropWhile is_js_space s)))"

text \<open>The class \<open>\d\<close> of a regular expression without the unicode flag: \<open>0\<close> to \<open>9\<close>.\<close>

definition is_digit :: "char \<Rightarrow> bool" where
  "is_digit c = (48 \<le> (of_char c :: nat) \<and> (of_char c :: nat) \<le> 57)"

text \<open>
  \<open>s.match(/^\*\/(\d+) \* \* \* \*$/)\<close>: the result is the capture group \<open>m[1]\<close>, or
  \<open>None\<close> for \<open>null\<close>. The group is greedy and is followed by a space, so it is the
  longest run of digits after the prefix.
\<close>

definition match_every_n_minutes :: "string \<Rightarrow> string option" where
  "match_every_n_minutes s =
     (if take 2 s = ''*/''
      then (let ds = takeWhile is_digit (drop 2 s);
                rest = dropWhile is_digit (drop 2 s)
            in if ds \<noteq> [] \<and> rest = '' * * * *'' then Some ds else None)
      else None)"

subsection \<open>Numbers\<close>

text \<open>
  A JavaScript number is a finite value, \<open>NaN\<close> or an infinity. A finite double is
  the rational it denotes. The rounding of IEEE arithmetic is not computed here: where
  the scheduler adds or multiplies numbers that need not be whole, the result is an
  input from the platform (\<open>delay_sum\<close> below).
\<close>

datatype jsnum = Num rat | NaN | PosInfinity | NegInfinity

fun Number_isFinite :: "jsnum \<Rightarrow> bool" where
  "Number_isFinite (Num _) = True"
| "Number_isFinite _ = False"

text \<open>\<open>x <= 0\<close> on numbers: every comparison with \<open>NaN\<close> is false.\<close>

fun le_zero :: "jsnum \<Rightarrow> bool" where
  "le_zero (Num r) = (r \<le> 0)"
| "le_zero NegInfinity = True"
| "le_zero _ = False"

definition decimal_value :: "string \<Rightarrow> int" where
  "decimal_value ds = foldl (\<lambda>a c. 10 * a + (of_char c - 48)) 0 ds"

text \<open>
  \<open>Number(m[1])\<close> on a non-empty string of decimal digits. A decimal literal at or above
  \<open>2^1024 - 2^970\<close> (half a unit in the last place beyond the largest double) converts to
  \<open>Infinity\<close>; that is the only case in which \<open>Number.isFinite\<close> fails here.
\<close>

definition double_overflow :: int where
  "double_overflow = 2 ^ 1024 - 2 ^ 970"

definition Number_of_digits :: "string \<Rightarrow> jsnum" where
  "Number_of_digits ds =
     (if decimal_value ds < double_overflow then Num (of_int (decimal_value ds)) else PosInfinity)"

subsection \<open>Dates and ISO timestamp strings\<close>

text \<open>
  A \<open>Date\<close> holds a time value in milliseconds since the epoch, or is an Invalid Date
  (time value \<open>NaN\<close>). The constructor \<open>new Date(v)\<close> clips: a value beyond
  \<open>8.64e15\<close> ms in magnitude gives an Invalid Date.
\<close>

datatype Date = Date int | InvalidDate

definition max_time_value :: int where
  "max_time_value = 8640000000000000"

definition new_Date :: "int \<Rightarrow> Date" where
  "new_Date v = (if \<bar>v\<bar> \<le> max_time_value then Date v else InvalidDate)"

text \<open>\<open>getTime\<close>: \<open>None\<close> stands for \<open>NaN\<close>.\<close>

fun getTime :: "Date \<Rightarrow> int option" where
  "getTime (Date t) = Some t"
| "getTime InvalidDate = None"

text \<open>
  A timestamp string is represented by what \<open>Date.parse\<close> reads from it: \<open>Iso t\<close> is
  a string that parses to the instant \<open>t\<close> (in particular the output of
  \<open>toISOString\<close> for \<open>t\<close>), \<open>NotDate s\<close> is the text \<open>s\<close> on which
  \<open>Date.parse\<close> gives \<open>NaN\<close>. Only strings produced by \<open>toISOString\<close> are ever
  compared with \<open>===\<close> by the scheduler, and \<open>toISOString\<close> is injective. (For a
  string of the platform, \<open>t\<close> is always a time value that a \<open>Date\<close> can hold.)
\<close>

datatype timestr = Iso int | NotDate string

fun Date_parse :: "timestr \<Rightarrow> int option" where
  "Date_parse (Iso t) = Some t"
| "Date_parse (NotDate _) = None"

text \<open>Truthiness of a string: every string but the empty one.\<close>

fun truthy :: "timestr \<Rightarrow> bool" where
  "truthy (Iso _) = True"
| "truthy (NotDate s) = (s \<noteq> [])"

text \<open>\<open>toISOString\<close> throws a \<open>RangeError\<close> on an Invalid Date: \<open>None\<close>.\<close>

fun toISOString :: "Date \<Rightarrow> timestr option" where
  "toISOString (Date t) = Some (Iso t)"
| "toISOString InvalidDate = None"

text \<open>
  \<open>new Date(v)\<close> on a finite number: the value is clipped as above and truncated
  towards zero to a whole number of milliseconds.
\<close>

definition trunc_ms :: "rat \<Rightarrow> int" where
  "trunc_ms r = (if 0 \<le> r then \<lfloor>r\<rfloor> else \<lceil>r\<rceil>)"

definition new_Date_of :: "rat \<Rightarrow> Date" where
  "new_Date_of r = new_Date (trunc_ms r)"

text \<open>\<open>new Date(v)\<close> on any number: \<open>NaN\<close> and the infinities give an Invalid Date.\<close>

fun new_Date_num :: "jsnum \<Rightarrow> Date" where
  "new_Date_num (Num r) = new_Date_of r"
| "new_Date_num _ = InvalidDate"

section \<open>RecurrenceEngine\<close>

text \<open>
  \<open>computeNextFromSimpleCron(expr, from)\<close>; \<open>None\<close> is \<open>null\<close>. With an Invalid Date
  as \<open>from\<close> the sum is \<open>NaN\<close> and the result an Invalid Date. For a valid \<open>from\<close>
  the product \<open>n * 60_000\<close> and the sum are exact in doubles whenever the result is a
  valid time value, and beyond the range in doubles whenever they are beyond it here.
\<close>

definition computeNextFromSimpleCron :: "string \<Rightarrow> Date \<Rightarrow> Date option" where
  "computeNextFromSimpleCron expr from =
     (case match_every_n_minutes (trim expr) of
        None \<Rightarrow> None
      | Some m1 \<Rightarrow>
          (let n = Number_of_digits m1
           in if \<not> Number_isFinite n \<or> le_zero n then None
              else (case n of
                      Num r \<Rightarrow>
                        (case getTime from of
                           None \<Rightarrow> Some InvalidDate
                         | Some t \<Rightarrow> Some (new_Date_of (of_int t + r * 60000)))
                    | _ \<Rightarrow> None)))"

section \<open>Data model\<close>

datatype TaskTiming =
    Datetime (when_of: timestr)
  | Delay (seconds: jsnum)
  | Natural (text_of: string)
  | Recurring (cron: string)

record Task =
  task_id :: string
  title :: string
  description :: "string option"
  createdAt :: timestr
  nextRun :: "timestr option"
  timing :: TaskTiming
  recurrence :: "string option"
  enabled :: bool
  metadata :: "(string \<times> string) list"

datatype TaskEventKind = created | updated | fired | disabled | error

record TaskEvent =
  ev_id :: string
  taskId :: string
  ev_title :: string
  kind :: TaskEventKind
  occurredAt :: timestr
  ev_nextRun :: "timestr option"
  ev_note :: string

definition EVENT_HISTORY_LIMIT :: nat where
  "EVENT_HISTORY_LIMIT = 120"

text \<open>
  The state of one \<open>TaskScheduler\<close> instance. The durable storage is one field per
  kind of key: \<open>task:<id>\<close>, \<open>task:<id>:lastRun\<close>, \<open>__index\<close> and \<open>__events\<close>
  (\<open>None\<close>: the key was never written). \<open>durable_alarm\<close> is the wake armed through
  \<open>state.setAlarm\<close>, \<open>localTimers\<close> the fire times of the live \<open>setTimeout\<close>
  timers, \<open>microtasks\<close> the number of queued calls of \<open>alarm\<close>. \<open>clock_reads\<close> and
  \<open>uuid_reads\<close> count the readings of the clock and of \<open>crypto.randomUUID\<close> so far.
\<close>

record TaskScheduler =
  storage_tasks :: "string \<rightharpoonup> Task"
  storage_lastRun :: "string \<rightharpoonup> timestr"
  storage_index :: "string list option"
  storage_events :: "TaskEvent list option"
  localTimers :: "int list"
  pendingAlarmIso :: "timestr option"
  lastAlarmIso :: "timestr option"
  durable_alarm :: "Date option"
  microtasks :: nat
  clock_reads :: nat
  uuid_reads :: nat

text \<open>
  What the platform supplies: the successive readings of the clock (\<open>new Date()\<close> is
  the valid \<open>Date\<close> of the reading), the successive UUIDs, \<open>state.setAlarm\<close>
  (\<open>None\<close> when it is not a function; otherwise whether the call succeeds, \<open>False\<close>
  when it throws), the text of the creation note, which \<open>buildCreationNote\<close>
  formats with \<open>Intl.DateTimeFormat\<close> and never throws, and \<open>delay_sum now seconds\<close>,
  the double that \<open>now + seconds * 1000\<close> evaluates to on line 210.
\<close>

record Env =
  Date_now :: "nat \<Rightarrow> int"
  randomUUID :: "nat \<Rightarrow> string"
  setAlarm :: "(Date \<Rightarrow> bool) option"
  buildCreationNote :: "Task \<Rightarrow> string"
  delay_sum :: "int \<Rightarrow> rat \<Rightarrow> jsnum"

definition now :: "Env \<Rightarrow> TaskScheduler \<Rightarrow> int" where
  "now env s = Date_now env (clock_reads s)"

definition tick :: "TaskScheduler \<Rightarrow> TaskScheduler" where
  "tick s = s\<lparr>clock_reads := Suc (clock_reads s)\<rparr>"

definition uuid :: "Env \<Rightarrow> TaskScheduler \<Rightarrow> string" where
  "uuid env s = randomUUID env (uuid_reads s)"

definition next_uuid :: "TaskScheduler \<Rightarrow> TaskScheduler" where
  "next_uuid s = s\<lparr>uuid_reads := Suc (uuid_reads s)\<rparr>"

text \<open>A call either returns a value or throws; the state it leaves is kept in both cases.\<close>

datatype 'a completion = Returned 'a | Threw string

section \<open>AlarmScheduler\<close>

definition JITTER_MS :: int where
  "JITTER_MS = 50"

text \<open>
  Lines 36 to 44 of \<open>scheduleAlarm\<close>: a pending alarm at this time or an earlier one.
\<close>

definition pending_covers :: "timestr option \<Rightarrow> int \<Rightarrow> bool" where
  "pending_covers pending incoming =
     (case pending of
        None \<Rightarrow> False
      | Some p \<Rightarrow>
          truthy p \<and> (case Date_parse p of None \<Rightarrow> False | Some existing \<Rightarrow> existing \<le> incoming))"

text \<open>
  Lines 51 to 90: the durable alarm when \<open>setAlarm\<close> is a function and does not throw,
  otherwise the in-memory fallback: a microtask when the delay is not positive (unless
  the timestamp just fired), else a single timer replacing the previous ones.
\<close>

definition arm_wake :: "Env \<Rightarrow> int \<Rightarrow> TaskScheduler \<Rightarrow> TaskScheduler" where
  "arm_wake env t s =
     (if (case setAlarm env of None \<Rightarrow> False | Some f \<Rightarrow> f (Date t))
      then s\<lparr>durable_alarm := Some (Date t)\<rparr>
      else (let delay = t - now env s;
                s1 = tick s
            in if delay \<le> 0
               then (if lastAlarmIso s1 \<noteq> Some (Iso t)
                     then s1\<lparr>microtasks := Suc (microtasks s1)\<rparr> else s1)
               else s1\<lparr>localTimers := [t]\<rparr>))"

text \<open>
  \<open>scheduleAlarm(date)\<close>. \<open>date.toISOString()\<close> on the first line throws on an Invalid
  Date; for a valid one \<open>iso\<close> is \<open>Iso t\<close> and \<open>date.getTime()\<close> is \<open>t\<close>.
\<close>

fun scheduleAlarm :: "Env \<Rightarrow> Date \<Rightarrow> TaskScheduler \<Rightarrow> unit completion \<times> TaskScheduler" where
  "scheduleAlarm env InvalidDate s = (Threw ''RangeError'', s)"
| "scheduleAlarm env (Date t) s =
     (let isoStr = Iso t;
          now0 = now env s;
          s1 = tick s
      in if t \<le> now0 + JITTER_MS then (Returned (), s1)
         else if pending_covers (pendingAlarmIso s1) t then (Returned (), s1)
         else if lastAlarmIso s1 = Some isoStr then (Returned (), s1)
         else (Returned (), arm_wake env t (s1\<lparr>pendingAlarmIso := Some isoStr\<rparr>)))"

section \<open>EventLog\<close>

definition stored_events :: "TaskScheduler \<Rightarrow> TaskEvent list" where
  "stored_events s = (case storage_events s of None \<Rightarrow> [] | Some evs \<Rightarrow> evs)"

text \<open>\<open>merged.slice(start)\<close> with \<open>0 \<le> start\<close>.\<close>

definition slice_from :: "nat \<Rightarrow> 'a list \<Rightarrow> 'a list" where
  "slice_from start xs = drop start xs"

definition appendEvents :: "TaskEvent list \<Rightarrow> TaskScheduler \<Rightarrow> TaskScheduler" where
  "appendEvents events s =
     (if events = [] then s
      else (let existing = stored_events s;
                merged = existing @ events;
                trimmed = (if length merged \<le> EVENT_HISTORY_LIMIT then merged
                           else slice_from (length merged - EVENT_HISTORY_LIMIT) merged)
            in s\<lparr>storage_events := Some trimmed\<rparr>))"

definition getEvents :: "timestr option \<Rightarrow> TaskScheduler \<Rightarrow> TaskEvent list" where
  "getEvents sinceIso s =
     (let events = stored_events s
      in case sinceIso of
           None \<Rightarrow> events
         | Some si \<Rightarrow>
             if \<not> truthy si then events
             else (case Date_parse si of
                     None \<Rightarrow> events
                   | Some since \<Rightarrow>
                       filter (\<lambda>evt. case Date_parse (occurredAt evt) of
                                        None \<Rightarrow> False
                                      | Some ts \<Rightarrow> ts > since) events))"

section \<open>Creating a task: \<open>POST /tasks\<close>\<close>

text \<open>
  The JSON body of the request, as far as the handler reads it. \<open>body_timing\<close> is
  \<open>body.timing\<close> by the value of its \<open>type\<close>: \<open>TimingAbsent\<close> when \<open>body.timing\<close>
  is falsy, not an object or has no \<open>type\<close>; \<open>TimingOther\<close> for a type outside the four
  known ones; for \<open>delay\<close> the argument is \<open>Number(body.timing.seconds)\<close>; \<open>when\<close> and
  \<open>cron\<close> may be missing. A request whose body is not JSON, or is \<open>null\<close>, is \<open>None\<close>.
\<close>

datatype BodyTiming =
    TimingAbsent
  | TimingOther string
  | TimingDatetime "timestr option"
  | TimingDelay jsnum
  | TimingNatural string
  | TimingRecurring "string option"

record CreateBody =
  body_title :: "string option"
  body_description :: "string option"
  body_timing :: BodyTiming
  body_recurrence :: "string option"
  body_enabled :: "bool option"
  body_metadata :: "(string \<times> string) list option"

datatype ResponseBody = TaskJson Task | ErrorJson string

datatype Response = Response (status: nat) (payload: ResponseBody)

definition json :: "ResponseBody \<Rightarrow> nat \<Rightarrow> Response" where
  "json data st = Response st data"

text \<open>Lines 163 to 191: the validation of \<open>body.timing\<close>; \<open>None\<close> when it passes.\<close>

fun validate_timing :: "BodyTiming \<Rightarrow> string option" where
  "validate_timing TimingAbsent = Some ''Missing or invalid timing property''"
| "validate_timing (TimingOther ty) = Some (''Unsupported timing type: '' @ ty)"
| "validate_timing (TimingDelay secs) =
     (if \<not> Number_isFinite secs \<or> le_zero secs
      then Some ''Delay seconds must be a positive number'' else None)"
| "validate_timing (TimingDatetime w) =
     (case w of
        None \<Rightarrow> Some ''Invalid datetime 'when' value''
      | Some wh \<Rightarrow>
          if \<not> truthy wh \<or> Date_parse wh = None
          then Some ''Invalid datetime 'when' value'' else None)"
| "validate_timing (TimingNatural t) =
     Some ''Timing type 'natural' must be converted to 'datetime' before creation''"
| "validate_timing (TimingRecurring c) = None"

text \<open>
  Lines 206 to 220: \<open>task.timing\<close> and the first \<open>nextRun\<close>, for a timing that passed the
  validation. The clock is read once for \<open>delay\<close> and once for \<open>recurring\<close>.
  \<open>toISOString\<close> on an Invalid Date and \<open>trim\<close> on a missing \<open>cron\<close> throw.
\<close>

fun initial_nextRun ::
  "Env \<Rightarrow> BodyTiming \<Rightarrow> TaskScheduler \<Rightarrow> (TaskTiming \<times> timestr option) completion \<times> TaskScheduler"
where
  "initial_nextRun env (TimingDatetime (Some wh)) s = (Returned (Datetime wh, Some wh), s)"
| "initial_nextRun env (TimingDelay (Num secs)) s =
     (case toISOString (new_Date_num (delay_sum env (now env s) secs)) of
        None \<Rightarrow> (Threw ''RangeError: Invalid time value'', tick s)
      | Some isoStr \<Rightarrow> (Returned (Delay (Num secs), Some isoStr), tick s))"
| "initial_nextRun env (TimingRecurring (Some c)) s =
     (let cron0 = trim c
      in case computeNextFromSimpleCron cron0 (Date (now env s)) of
           Some next \<Rightarrow>
             (case toISOString next of
                None \<Rightarrow> (Threw ''RangeError: Invalid time value'', tick s)
              | Some isoStr \<Rightarrow> (Returned (Recurring c, Some isoStr), tick s))
         | None \<Rightarrow> (Returned (Recurring c, None), tick s))"
| "initial_nextRun env _ s = (Threw ''TypeError'', s)"

text \<open>Lines 227 to 233: the alarm for the new task.\<close>

definition schedule_created ::
  "Env \<Rightarrow> timestr option \<Rightarrow> TaskScheduler \<Rightarrow> unit completion \<times> TaskScheduler" where
  "schedule_created env nr s =
     (case nr of
        None \<Rightarrow> (Returned (), s)
      | Some isoStr \<Rightarrow>
          if \<not> truthy isoStr then (Returned (), s)
          else (case Date_parse isoStr of
                  None \<Rightarrow> (Returned (), s)
                | Some next \<Rightarrow> scheduleAlarm env (new_Date next) s))"

definition create_event :: "Env \<Rightarrow> Task \<Rightarrow> TaskScheduler \<Rightarrow> TaskEvent" where
  "create_event env task s =
     \<lparr>ev_id = uuid env s, taskId = task_id task, ev_title = title task, kind = created,
      occurredAt = Iso (now env s), ev_nextRun = nextRun task,
      ev_note = buildCreationNote env task\<rparr>"

text \<open>
  Lines 222 to 248: the writes. The record and the index are put one after the other,
  then the alarm is scheduled and the \<open>created\<close> event appended.
\<close>

definition persist_created :: "Env \<Rightarrow> Task \<Rightarrow> TaskScheduler \<Rightarrow> Response \<times> TaskScheduler" where
  "persist_created env task s =
     (let s1 = s\<lparr>storage_tasks := (storage_tasks s)(task_id task \<mapsto> task)\<rparr>;
          idx = (case storage_index s1 of None \<Rightarrow> [] | Some ids \<Rightarrow> ids);
          s2 = s1\<lparr>storage_index := Some (idx @ [task_id task])\<rparr>
      in case schedule_created env (nextRun task) s2 of
           (Threw e, s3) \<Rightarrow> (json (ErrorJson e) 400, s3)
         | (Returned u, s3) \<Rightarrow>
             (json (TaskJson task) 201,
              appendEvents [create_event env task s3] (tick (next_uuid s3))))"

definition fetch_POST_tasks ::
  "Env \<Rightarrow> CreateBody option \<Rightarrow> TaskScheduler \<Rightarrow> Response \<times> TaskScheduler" where
  "fetch_POST_tasks env request s =
     (case request of
        None \<Rightarrow> (json (ErrorJson ''TypeError'') 400, s)
      | Some body \<Rightarrow>
          (case validate_timing (body_timing body) of
             Some msg \<Rightarrow> (json (ErrorJson msg) 400, s)
           | None \<Rightarrow>
               (let ident = uuid env s;
                    s1 = next_uuid s;
                    nowIso = Iso (now env s1);
                    s2 = tick s1
                in case initial_nextRun env (body_timing body) s2 of
                     (Threw e, s3) \<Rightarrow> (json (ErrorJson e) 400, s3)
                   | (Returned (tm, nr), s3) \<Rightarrow>
                       persist_created env
                         \<lparr>task_id = ident,
                          title = (case body_title body of
                                     None \<Rightarrow> ''Untitled''
                                   | Some t \<Rightarrow> if t = [] then ''Untitled'' else t),
                          description = body_description body,
                          createdAt = nowIso,
                          nextRun = nr,
                          timing = tm,
                          recurrence = body_recurrence body,
                          enabled = (body_enabled body \<noteq> Some False),
                          metadata = (case body_metadata body of None \<Rightarrow> [] | Some m \<Rightarrow> m)\<rparr>
                         s3)))"

section \<open>Lifecycle Controller: the wake handler\<close>

definition TOLERANCE_MS :: int where
  "TOLERANCE_MS = 250"

definition MIN_FUTURE_MS :: int where
  "MIN_FUTURE_MS = 25"

text \<open>\<open>!task.recurrence\<close>: the field is absent, \<open>null\<close> or the empty string.\<close>

definition no_recurrence :: "Task \<Rightarrow> bool" where
  "no_recurrence task = (case recurrence task of None \<Rightarrow> True | Some r \<Rightarrow> r = [])"

text \<open>
  Line 294: the expression from which the next run of a task with a recurrence is
  computed.
\<close>

definition cronExpr_of :: "Task \<Rightarrow> string" where
  "cronExpr_of task =
     (case timing task of
        Recurring c \<Rightarrow> c
      | _ \<Rightarrow> (case recurrence task of None \<Rightarrow> [] | Some r \<Rightarrow> r))"

text \<open>
  Lines 308 to 318: the record is written back and the \<open>fired\<close> event pushed.
\<close>

definition record_fired ::
  "Env \<Rightarrow> string \<Rightarrow> Task \<Rightarrow> string \<Rightarrow> timestr \<Rightarrow> int option \<Rightarrow> TaskEvent list \<Rightarrow> TaskScheduler
     \<Rightarrow> (int option \<times> TaskEvent list) completion \<times> TaskScheduler" where
  "record_fired env ident task nt firedIso earliest firedEvents s =
     (let s1 = s\<lparr>storage_tasks := (storage_tasks s)(ident \<mapsto> task)\<rparr>;
          evt = \<lparr>ev_id = uuid env s1, taskId = ident,
                 ev_title = (if title task = [] then ''Untitled task'' else title task),
                 kind = fired, occurredAt = firedIso, ev_nextRun = nextRun task, ev_note = nt\<rparr>
      in (Returned (earliest, firedEvents @ [evt]), next_uuid s1))"

text \<open>
  Lines 284 to 307: a due task. The clock is read for \<open>firedIso\<close> and, for a task with
  a recurrence, again for the new \<open>nextRun\<close>. \<open>new Date(nextTime).toISOString()\<close> throws
  when \<open>next\<close> is an Invalid Date.
\<close>

definition fire_task ::
  "Env \<Rightarrow> string \<Rightarrow> Task \<Rightarrow> int option \<Rightarrow> TaskEvent list \<Rightarrow> TaskScheduler
     \<Rightarrow> (int option \<times> TaskEvent list) completion \<times> TaskScheduler" where
  "fire_task env ident task earliest firedEvents s =
     (let firedIso = Iso (now env s);
          s1 = (tick s)\<lparr>storage_lastRun := (storage_lastRun s)(ident \<mapsto> firedIso)\<rparr>
      in if no_recurrence task
         then record_fired env ident (task\<lparr>enabled := False, nextRun := None\<rparr>)
                ''Task completed'' firedIso earliest firedEvents s1
         else (let cronExpr = cronExpr_of task;
                   next = computeNextFromSimpleCron cronExpr (Date (now env s1));
                   s2 = tick s1
               in case next of
                    Some d \<Rightarrow>
                      (case getTime d of
                         None \<Rightarrow> (Threw ''RangeError: Invalid time value'', s2)
                       | Some nextTime \<Rightarrow>
                           (case toISOString (new_Date nextTime) of
                              None \<Rightarrow> (Threw ''RangeError: Invalid time value'', s2)
                            | Some isoStr \<Rightarrow>
                                record_fired env ident (task\<lparr>nextRun := Some isoStr\<rparr>)
                                  ''Recurring task rescheduled'' firedIso
                                  (case earliest of
                                     None \<Rightarrow> Some nextTime
                                   | Some e \<Rightarrow> if nextTime < e then Some nextTime else Some e)
                                  firedEvents s2))
                  | None \<Rightarrow>
                      record_fired env ident (task\<lparr>enabled := False, nextRun := None\<rparr>)
                        ''Recurring task disabled (invalid cron)'' firedIso earliest firedEvents
                        s2))"

text \<open>Lines 278 to 322: one round of the loop over the index.\<close>

definition alarm_step ::
  "Env \<Rightarrow> int \<Rightarrow> string \<Rightarrow> int option \<Rightarrow> TaskEvent list \<Rightarrow> TaskScheduler
     \<Rightarrow> (int option \<times> TaskEvent list) completion \<times> TaskScheduler" where
  "alarm_step env effectiveNow ident earliest firedEvents s =
     (case storage_tasks s ident of
        None \<Rightarrow> (Returned (earliest, firedEvents), s)
      | Some task \<Rightarrow>
          if \<not> enabled task then (Returned (earliest, firedEvents), s)
          else (case nextRun task of
                  None \<Rightarrow> (Returned (earliest, firedEvents), s)
                | Some nr \<Rightarrow>
                    if \<not> truthy nr then (Returned (earliest, firedEvents), s)
                    else (case Date_parse nr of
                            None \<Rightarrow> (Returned (earliest, firedEvents), s)
                          | Some nextRun0 \<Rightarrow>
                              if nextRun0 \<le> effectiveNow
                              then fire_task env ident task earliest firedEvents s
                              else if nextRun0 > effectiveNow \<and>
                                      (case earliest of None \<Rightarrow> True | Some e \<Rightarrow> nextRun0 < e)
                              then (Returned (Some nextRun0, firedEvents), s)
                              else (Returned (earliest, firedEvents), s))))"

fun alarm_loop ::
  "Env \<Rightarrow> int \<Rightarrow> string list \<Rightarrow> int option \<Rightarrow> TaskEvent list \<Rightarrow> TaskScheduler
     \<Rightarrow> (int option \<times> TaskEvent list) completion \<times> TaskScheduler" where
  "alarm_loop env effectiveNow [] earliest firedEvents s = (Returned (earliest, firedEvents), s)"
| "alarm_loop env effectiveNow (ident # idx) earliest firedEvents s =
     (case alarm_step env effectiveNow ident earliest firedEvents s of
        (Threw e, s1) \<Rightarrow> (Threw e, s1)
      | (Returned (earliest1, firedEvents1), s1) \<Rightarrow>
          alarm_loop env effectiveNow idx earliest1 firedEvents1 s1)"

text \<open>
  Lines 329 to 337: the next wake. The clock is read once for the comparison and once
  more when the target is moved forward.
\<close>

definition rearm :: "Env \<Rightarrow> int option \<Rightarrow> TaskScheduler \<Rightarrow> unit completion \<times> TaskScheduler" where
  "rearm env earliest s =
     (case earliest of
        None \<Rightarrow> (Returned (), s)
      | Some e \<Rightarrow>
          if e \<le> now env s + MIN_FUTURE_MS
          then scheduleAlarm env (new_Date (now env (tick s) + 500)) (tick (tick s))
          else scheduleAlarm env (new_Date e) (tick s))"

text \<open>
  Lines 261 to 272: the state in which the loop starts. The clock is read for
  \<open>nowIso\<close> and for \<open>now\<close>.
\<close>

definition alarm_begin :: "Env \<Rightarrow> TaskScheduler \<Rightarrow> TaskScheduler" where
  "alarm_begin env s =
     (let justFiredIso = pendingAlarmIso s;
          nowIso = Iso (now env s)
      in tick (tick (s\<lparr>pendingAlarmIso := None,
                       lastAlarmIso := Some (case justFiredIso of
                                               None \<Rightarrow> nowIso
                                             | Some j \<Rightarrow> if truthy j then j else nowIso)\<rparr>)))"

definition effectiveNow_of :: "Env \<Rightarrow> TaskScheduler \<Rightarrow> int" where
  "effectiveNow_of env s = now env (tick s) + TOLERANCE_MS"

definition index_of :: "TaskScheduler \<Rightarrow> string list" where
  "index_of s = (case storage_index s of None \<Rightarrow> [] | Some ids \<Rightarrow> ids)"

text \<open>The loop of one wake cycle, from the state in which \<open>alarm\<close> is called.\<close>

definition alarm_scan ::
  "Env \<Rightarrow> TaskScheduler \<Rightarrow> (int option \<times> TaskEvent list) completion \<times> TaskScheduler" where
  "alarm_scan env s =
     alarm_loop env (effectiveNow_of env s) (index_of (alarm_begin env s)) None []
       (alarm_begin env s)"

definition alarm :: "Env \<Rightarrow> TaskScheduler \<Rightarrow> unit completion \<times> TaskScheduler" where
  "alarm env s =
     (case alarm_scan env s of
        (Threw e, s1) \<Rightarrow> (Threw e, s1)
      | (Returned (earliest, firedEvents), s1) \<Rightarrow> rearm env earliest (appendEvents firedEvents s1))"

section \<open>Notions used in the statements\<close>

text \<open>
  The shape \<open>*/N * * * *\<close> in the words of the specification: a slash-prefixed interval
  of decimal digits over the minutes field and a wildcard in the four other fields;
  \<open>N\<close> is the number the digits denote.
\<close>

definition every_n_minutes :: "string \<Rightarrow> int \<Rightarrow> bool" where
  "every_n_minutes s N =
     (\<exists>ds. ds \<noteq> [] \<and> list_all is_digit ds \<and> s = ''*/'' @ ds @ '' * * * *'' \<and> N = decimal_value ds)"

text \<open>
  A supported expression: \<open>N\<close> is positive and finite as a number, that is, below the
  bound from which \<open>Number\<close> yields \<open>Infinity\<close>.
\<close>

definition supported_interval :: "string \<Rightarrow> int \<Rightarrow> bool" where
  "supported_interval s N = (every_n_minutes s N \<and> 0 < N \<and> N < double_overflow)"

text \<open>The last \<open>n\<close> entries of a log.\<close>

definition last_entries :: "nat \<Rightarrow> 'a list \<Rightarrow> 'a list" where
  "last_entries n xs = rev (take n (rev xs))"

text \<open>An event whose \<open>occurredAt\<close> is a timestamp strictly after \<open>t\<close>.\<close>

definition occurred_after :: "int \<Rightarrow> TaskEvent \<Rightarrow> bool" where
  "occurred_after t evt = (\<exists>ts. Date_parse (occurredAt evt) = Some ts \<and> t < ts)"

text \<open>
  The three guards of \<open>schedule(candidate)\<close> in the words of the specification: the
  candidate is within the jitter window, a pending timestamp is at or before it, or it is
  the timestamp that fired last.
\<close>

definition within_jitter :: "Env \<Rightarrow> TaskScheduler \<Rightarrow> int \<Rightarrow> bool" where
  "within_jitter env s c = (c \<le> now env s + 50)"

definition pending_at_or_before :: "TaskScheduler \<Rightarrow> int \<Rightarrow> bool" where
  "pending_at_or_before s c =
     (\<exists>p e. pendingAlarmIso s = Some p \<and> Date_parse p = Some e \<and> e \<le> c)"

definition just_fired :: "TaskScheduler \<Rightarrow> int \<Rightarrow> bool" where
  "just_fired s c = (lastAlarmIso s = Some (Iso c))"

text \<open>The wakes armed by an instance: the durable alarm, the timers and the microtasks.\<close>

definition armed_wakes :: "TaskScheduler \<Rightarrow> Date option \<times> int list \<times> nat" where
  "armed_wakes s = (durable_alarm s, localTimers s, microtasks s)"

text \<open>
  The timings that the specification rejects at creation: missing or invalid, of an
  unsupported variant, of variant \<open>natural\<close>, a delay whose seconds are not finite or not
  positive, a datetime that does not parse to an instant.
\<close>

fun rejected_timing :: "BodyTiming \<Rightarrow> bool" where
  "rejected_timing TimingAbsent = True"
| "rejected_timing (TimingOther ty) = True"
| "rejected_timing (TimingNatural txt) = True"
| "rejected_timing (TimingDelay secs) = (case secs of Num r \<Rightarrow> r \<le> 0 | _ \<Rightarrow> True)"
| "rejected_timing (TimingDatetime w) =
     (case w of None \<Rightarrow> True | Some wh \<Rightarrow> Date_parse wh = None)"
| "rejected_timing (TimingRecurring c) = False"

definition rejected_request :: "CreateBody option \<Rightarrow> bool" where
  "rejected_request request =
     (case request of None \<Rightarrow> True | Some body \<Rightarrow> rejected_timing (body_timing body))"

text \<open>
  A task that is due at the evaluation time \<open>eff\<close> of a wake cycle: it is enabled and its
  \<open>nextRun\<close> is a timestamp at or before \<open>eff\<close>.
\<close>

definition is_due :: "int \<Rightarrow> Task \<Rightarrow> bool" where
  "is_due eff task =
     (enabled task \<and> (\<exists>nr t. nextRun task = Some nr \<and> Date_parse nr = Some t \<and> t \<le> eff))"

definition due_at :: "int \<Rightarrow> TaskScheduler \<Rightarrow> string \<Rightarrow> bool" where
  "due_at eff s ident = (\<exists>task. storage_tasks s ident = Some task \<and> is_due eff task)"


text \<open>The batch of \<open>fired\<close> events that a wake cycle hands to \<open>appendEvents\<close>.\<close>

definition fired_batch :: "Env \<Rightarrow> TaskScheduler \<Rightarrow> TaskEvent list" where
  "fired_batch env s =
     (case alarm_scan env s of (Returned (earliest, firedEvents), s1) \<Rightarrow> firedEvents
      | (Threw e, s1) \<Rightarrow> [])"


text \<open>A time value that a \<open>Date\<close> can hold.\<close>

definition in_time_range :: "int \<Rightarrow> bool" where
  "in_time_range t = (\<bar>t\<bar> \<le> max_time_value)"

text \<open>
  A task whose next date stays within that range at every reading of the clock: lines
  295 to 298 do not throw for it. An instance is safe for a wake cycle when every
  stored task is such a task with a \<open>nextRun\<close> in range, and the clock is half a second
  away from the end of the range.
\<close>

definition earliest_in_range :: "int option \<Rightarrow> bool" where
  "earliest_in_range earliest = (case earliest of None \<Rightarrow> True | Some e \<Rightarrow> in_time_range e)"

definition reschedulable :: "Env \<Rightarrow> Task \<Rightarrow> bool" where
  "reschedulable env task =
     (no_recurrence task
      \<or> (\<forall>k. computeNextFromSimpleCron (cronExpr_of task) (Date (Date_now env k)) \<noteq> Some InvalidDate))"

definition stored_tasks_safe :: "Env \<Rightarrow> TaskScheduler \<Rightarrow> bool" where
  "stored_tasks_safe env s =
     (\<forall>ident task. storage_tasks s ident = Some task \<longrightarrow>
        reschedulable env task \<and> (\<forall>t. nextRun task = Some (Iso t) \<longrightarrow> in_time_range t))"

definition wake_cycle_safe :: "Env \<Rightarrow> TaskScheduler \<Rightarrow> bool" where
  "wake_cycle_safe env s =
     ((\<forall>k. in_time_range (Date_now env k + 500)) \<and> stored_tasks_safe env s)"

section \<open>Sample values\<close>

text \<open>A new instance, as the constructor leaves it, over an empty storage.\<close>

definition new_TaskScheduler :: TaskScheduler where
  "new_TaskScheduler =
     \<lparr>storage_tasks = Map.empty, storage_lastRun = Map.empty, storage_index = None,
      storage_events = None, localTimers = [], pendingAlarmIso = None, lastAlarmIso = None,
      durable_alarm = None, microtasks = 0, clock_reads = 0, uuid_reads = 0\<rparr>"


text \<open>
  A clock that shows the same time \<open>c\<close> at every reading; the delays of the samples
  are whole seconds, for which the sum of line 210 is exact.
\<close>

definition sample_env_at :: "int \<Rightarrow> Env" where
  "sample_env_at c =
     \<lparr>Date_now = (\<lambda>k. c), randomUUID = (\<lambda>k. replicate (Suc k) CHR ''u''),
      setAlarm = None, buildCreationNote = (\<lambda>task. ''Timing''),
      delay_sum = (\<lambda>t secs. Num (of_int t + secs * 1000))\<rparr>"

definition sample_body :: "BodyTiming \<Rightarrow> CreateBody" where
  "sample_body tm =
     \<lparr>body_title = Some ''Heartbeat'', body_description = None, body_timing = tm,
      body_recurrence = None, body_enabled = None, body_metadata = None\<rparr>"



definition sample_event :: "string \<Rightarrow> int \<Rightarrow> TaskEvent" where
  "sample_event ident t =
     \<lparr>ev_id = ident, taskId = ''t1'', ev_title = ''Stand-up'', kind = fired,
      occurredAt = Iso t, ev_nextRun = None, ev_note = ''Task completed''\<rparr>"



section \<open>RecurrenceEngine: the supported expressions\<close>

lemma not_digit_space: "\<not> is_digit CHR '' ''"
  by (simp add: is_digit_def)

lemma match_Some_iff:
  "match_every_n_minutes s = Some ds \<longleftrightarrow>
     ds \<noteq> [] \<and> list_all is_digit ds \<and> s = ''*/'' @ ds @ '' * * * *''"
proof
  assume m: "match_every_n_minutes s = Some ds"
  then have pre: "take 2 s = ''*/''"
    by (simp add: match_every_n_minutes_def split: if_splits)
  from m pre have ds: "ds = takeWhile is_digit (drop 2 s)" "ds \<noteq> []"
    and rest: "dropWhile is_digit (drop 2 s) = '' * * * *''"
    by (auto simp: match_every_n_minutes_def Let_def split: if_splits)
  have "s = take 2 s @ drop 2 s" by simp
  also have "drop 2 s = takeWhile is_digit (drop 2 s) @ dropWhile is_digit (drop 2 s)" by simp
  finally have "s = ''*/'' @ ds @ '' * * * *''"
    using pre ds rest by simp
  moreover have "list_all is_digit ds"
    unfolding ds(1) list_all_iff by (auto dest: set_takeWhileD)
  ultimately show "ds \<noteq> [] \<and> list_all is_digit ds \<and> s = ''*/'' @ ds @ '' * * * *''"
    using ds(2) by simp
next
  assume a: "ds \<noteq> [] \<and> list_all is_digit ds \<and> s = ''*/'' @ ds @ '' * * * *''"
  then have all: "\<forall>c\<in>set ds. is_digit c" by (simp add: list_all_iff)
  have tw: "takeWhile is_digit (ds @ '' * * * *'') = ds"
    using all not_digit_space by (simp add: takeWhile_append2)
  have dw: "dropWhile is_digit (ds @ '' * * * *'') = '' * * * *''"
    using all not_digit_space by (simp add: dropWhile_append2)
  show "match_every_n_minutes s = Some ds"
    using a tw dw by (simp add: match_every_n_minutes_def)
qed

lemma trunc_ms_int: "trunc_ms (of_int k) = k"
  by (simp add: trunc_ms_def)

lemma trunc_ms_of_int: "trunc_ms (of_int a + of_int b * 60000) = a + b * 60000"
proof -
  have "(of_int a + of_int b * 60000 :: rat) = of_int (a + b * 60000)" by simp
  then show ?thesis by (simp only: trunc_ms_int)
qed

lemma computeNext_of_match:
  "computeNextFromSimpleCron expr (Date t) =
     (case match_every_n_minutes (trim expr) of
        None \<Rightarrow> None
      | Some ds \<Rightarrow> if 0 < decimal_value ds \<and> decimal_value ds < double_overflow
                  then Some (new_Date (t + decimal_value ds * 60000)) else None)"
  by (auto simp: computeNextFromSimpleCron_def Number_of_digits_def new_Date_of_def
        trunc_ms_of_int split: option.splits)






section \<open>EventLog: the cap and the cursor\<close>

lemma last_entries_drop: "last_entries n xs = drop (length xs - n) xs"
  by (simp add: last_entries_def rev_take)

text \<open>
  C6. For every non-empty batch and every prior log, \<open>appendEvents\<close> stores the last
  120 entries of the prior log followed by the batch and changes nothing else: the
  stored log never exceeds 120 entries, and what is dropped is a prefix, the oldest
  entries.
\<close>

theorem appendEvents_keeps_last_entries:
  "events \<noteq> [] \<Longrightarrow>
     appendEvents events s =
       s\<lparr>storage_events := Some (last_entries 120 (stored_events s @ events))\<rparr>
     \<and> length (stored_events (appendEvents events s)) \<le> 120
     \<and> (\<exists>dropped. stored_events s @ events = dropped @ stored_events (appendEvents events s))"
proof -
  assume ne: "events \<noteq> []"
  let ?m = "stored_events s @ events"
  have eq: "appendEvents events s = s\<lparr>storage_events := Some (last_entries 120 ?m)\<rparr>"
    using ne by (simp add: appendEvents_def Let_def EVENT_HISTORY_LIMIT_def slice_from_def
        last_entries_drop)
  then have st: "stored_events (appendEvents events s) = drop (length ?m - 120) ?m"
    by (simp add: stored_events_def last_entries_drop)
  have "?m = take (length ?m - 120) ?m @ drop (length ?m - 120) ?m"
    by (rule append_take_drop_id [symmetric])
  then have "\<exists>dropped. ?m = dropped @ stored_events (appendEvents events s)"
    unfolding st by blast
  moreover have "length (stored_events (appendEvents events s)) \<le> 120"
    unfolding st by simp
  ultimately show ?thesis using eq by blast
qed

theorem appendEvents_keeps_last_entries_witness:
  "[sample_event ''e2'' 20, sample_event ''e3'' 30] \<noteq> []
   \<and> stored_events (appendEvents [sample_event ''e2'' 20, sample_event ''e3'' 30]
        (new_TaskScheduler\<lparr>storage_events := Some (replicate 119 (sample_event ''e1'' 10))\<rparr>))
      = replicate 118 (sample_event ''e1'' 10) @ [sample_event ''e2'' 20, sample_event ''e3'' 30]
   \<and> length (stored_events (appendEvents [sample_event ''e2'' 20, sample_event ''e3'' 30]
        (new_TaskScheduler\<lparr>storage_events := Some (replicate 119 (sample_event ''e1'' 10))\<rparr>)))
      = 120"
proof -
  have ne: "[sample_event ''e2'' 20, sample_event ''e3'' 30] \<noteq> []" by simp
  from appendEvents_keeps_last_entries [OF ne,
      of "new_TaskScheduler\<lparr>storage_events := Some (replicate 119 (sample_event ''e1'' 10))\<rparr>"]
  show ?thesis
    by (simp add: stored_events_def last_entries_def)
qed

text \<open>
  C7. For a \<open>since\<close> cursor that parses to the timestamp \<open>t\<close>, \<open>getEvents\<close> returns
  exactly the logged events whose \<open>occurredAt\<close> is strictly greater than \<open>t\<close>, in
  the order of the log.
\<close>

theorem getEvents_strictly_newer:
  "Date_parse since = Some t \<Longrightarrow>
     getEvents (Some since) s = filter (occurred_after t) (stored_events s)"
proof -
  assume p: "Date_parse since = Some t"
  then have "truthy since" by (cases since) simp_all
  moreover have "(\<lambda>evt. case Date_parse (occurredAt evt) of None \<Rightarrow> False | Some ts \<Rightarrow> t < ts)
                 = occurred_after t"
    by (rule ext) (simp add: occurred_after_def split: option.splits)
  ultimately show ?thesis using p by (simp add: getEvents_def)
qed

theorem getEvents_strictly_newer_witness:
  "Date_parse (Iso 20) = Some 20
   \<and> getEvents (Some (Iso 20))
        (new_TaskScheduler\<lparr>storage_events :=
           Some [sample_event ''e1'' 10, sample_event ''e2'' 20, sample_event ''e3'' 30,
                 sample_event ''e4'' 40]\<rparr>)
      = [sample_event ''e3'' 30, sample_event ''e4'' 40]"
proof -
  have p: "Date_parse (Iso 20) = Some 20" by simp
  from getEvents_strictly_newer [OF p] show ?thesis
    by (simp add: stored_events_def occurred_after_def sample_event_def)
qed

text \<open>
  C10. With a \<open>since\<close> cursor that does not parse as a timestamp, \<open>getEvents\<close>
  returns the entire stored log.
\<close>

theorem getEvents_unparsable_since:
  "Date_parse since = None \<Longrightarrow> getEvents (Some since) s = stored_events s"
  by (simp add: getEvents_def Let_def)

theorem getEvents_unparsable_since_witness:
  "Date_parse (NotDate ''yesterday'') = None
   \<and> getEvents (Some (NotDate ''yesterday''))
        (new_TaskScheduler\<lparr>storage_events := Some [sample_event ''e1'' 10, sample_event ''e2'' 20]\<rparr>)
      = [sample_event ''e1'' 10, sample_event ''e2'' 20]"
proof -
  have p: "Date_parse (NotDate ''yesterday'') = None" by simp
  from getEvents_unparsable_since [OF p] show ?thesis
    by (simp add: stored_events_def)
qed

section \<open>AlarmScheduler: the guards of \<open>scheduleAlarm\<close>\<close>

lemma pending_covers_iff: "pending_covers (pendingAlarmIso s) c = pending_at_or_before s c"
proof (cases "pendingAlarmIso s")
  case None
  then show ?thesis by (simp add: pending_covers_def pending_at_or_before_def)
next
  case (Some p)
  then show ?thesis
    by (cases p) (simp_all add: pending_covers_def pending_at_or_before_def)
qed

lemma arm_wake_pending [simp]: "pendingAlarmIso (arm_wake env t s) = pendingAlarmIso s"
  by (simp add: arm_wake_def tick_def Let_def)

lemma scheduleAlarm_skip:
  "within_jitter env s c \<or> pending_at_or_before s c \<or> just_fired s c \<Longrightarrow>
     scheduleAlarm env (Date c) s = (Returned (), tick s)"
  using pending_covers_iff [of "tick s" c]
  by (auto simp: Let_def within_jitter_def just_fired_def JITTER_MS_def tick_def
      pending_at_or_before_def)

lemma scheduleAlarm_arm:
  "\<not> (within_jitter env s c \<or> pending_at_or_before s c \<or> just_fired s c) \<Longrightarrow>
     scheduleAlarm env (Date c) s =
       (Returned (), arm_wake env c ((tick s)\<lparr>pendingAlarmIso := Some (Iso c)\<rparr>))"
  using pending_covers_iff [of "tick s" c]
  by (auto simp: Let_def within_jitter_def just_fired_def JITTER_MS_def tick_def
      pending_at_or_before_def)

declare scheduleAlarm.simps [simp del]

text \<open>
  C8. For every candidate timestamp \<open>c\<close>: when \<open>c\<close> is at most the current time plus
  50 ms, or a pending timestamp at or before \<open>c\<close> exists, or \<open>c\<close> is the timestamp that
  fired last, \<open>scheduleAlarm\<close> leaves \<open>pending\<close> as it is and arms no wake. In every
  other case \<open>pending\<close> becomes \<open>c\<close>; so whenever \<open>pending\<close> changes it becomes \<open>c\<close>,
  and \<open>c\<close> is strictly earlier than the timestamp that was pending, if there was one.
\<close>

theorem scheduleAlarm_guards:
  "(within_jitter env s c \<or> pending_at_or_before s c \<or> just_fired s c \<longrightarrow>
      pendingAlarmIso (snd (scheduleAlarm env (Date c) s)) = pendingAlarmIso s
      \<and> armed_wakes (snd (scheduleAlarm env (Date c) s)) = armed_wakes s)
   \<and> (\<not> (within_jitter env s c \<or> pending_at_or_before s c \<or> just_fired s c) \<longrightarrow>
      pendingAlarmIso (snd (scheduleAlarm env (Date c) s)) = Some (Iso c))
   \<and> (pendingAlarmIso (snd (scheduleAlarm env (Date c) s)) \<noteq> pendingAlarmIso s \<longrightarrow>
      pendingAlarmIso (snd (scheduleAlarm env (Date c) s)) = Some (Iso c)
      \<and> (\<forall>p e. pendingAlarmIso s = Some p \<and> Date_parse p = Some e \<longrightarrow> c < e))"
proof (cases "within_jitter env s c \<or> pending_at_or_before s c \<or> just_fired s c")
  case True
  then show ?thesis
    by (simp add: scheduleAlarm_skip armed_wakes_def tick_def)
next
  case False
  then have "\<not> pending_at_or_before s c" by simp
  then have "\<forall>p e. pendingAlarmIso s = Some p \<and> Date_parse p = Some e \<longrightarrow> c < e"
    unfolding pending_at_or_before_def by (metis not_le)
  with False show ?thesis
    by (simp add: scheduleAlarm_arm) blast
qed

theorem scheduleAlarm_guards_witness:
  "pending_at_or_before (new_TaskScheduler\<lparr>pendingAlarmIso := Some (Iso 5000)\<rparr>) 6000
   \<and> snd (scheduleAlarm (sample_env_at 1000) (Date 6000) (new_TaskScheduler\<lparr>pendingAlarmIso := Some (Iso 5000)\<rparr>))
      = new_TaskScheduler\<lparr>pendingAlarmIso := Some (Iso 5000), clock_reads := 1\<rparr>
   \<and> \<not> (within_jitter (sample_env_at 1000) (new_TaskScheduler\<lparr>pendingAlarmIso := Some (Iso 5000)\<rparr>) 4000
        \<or> pending_at_or_before (new_TaskScheduler\<lparr>pendingAlarmIso := Some (Iso 5000)\<rparr>) 4000
        \<or> just_fired (new_TaskScheduler\<lparr>pendingAlarmIso := Some (Iso 5000)\<rparr>) 4000)
   \<and> pendingAlarmIso (snd (scheduleAlarm (sample_env_at 1000) (Date 4000)
        (new_TaskScheduler\<lparr>pendingAlarmIso := Some (Iso 5000)\<rparr>))) = Some (Iso 4000)
   \<and> (4000 :: int) < 5000"
proof -
  let ?s = "new_TaskScheduler\<lparr>pendingAlarmIso := Some (Iso 5000)\<rparr>"
  have h1: "pending_at_or_before ?s 6000"
    by (simp add: pending_at_or_before_def)
  have h2: "\<not> (within_jitter (sample_env_at 1000) ?s 4000 \<or> pending_at_or_before ?s 4000 \<or> just_fired ?s 4000)"
    by (simp add: within_jitter_def pending_at_or_before_def just_fired_def now_def
        sample_env_at_def new_TaskScheduler_def)
  from scheduleAlarm_guards [of "sample_env_at 1000" ?s 6000] h1
  have r1: "pendingAlarmIso (snd (scheduleAlarm (sample_env_at 1000) (Date 6000) ?s)) = pendingAlarmIso ?s"
    by blast
  from scheduleAlarm_guards [of "sample_env_at 1000" ?s 4000] h2
  have r2: "pendingAlarmIso (snd (scheduleAlarm (sample_env_at 1000) (Date 4000) ?s)) = Some (Iso 4000)"
    by blast
  have r3: "snd (scheduleAlarm (sample_env_at 1000) (Date 6000) ?s) = ?s\<lparr>clock_reads := 1\<rparr>"
    using r1 by (simp add: scheduleAlarm.simps Let_def now_def sample_env_at_def new_TaskScheduler_def JITTER_MS_def
        tick_def pending_covers_def)
  from h1 h2 r2 r3 show ?thesis by simp
qed

section \<open>Creating a task: rejected and inert requests\<close>

lemma validate_rejected: "rejected_timing tm \<Longrightarrow> \<exists>msg. validate_timing tm = Some msg"
proof (cases tm)
  case (TimingDelay secs)
  assume "rejected_timing tm"
  with TimingDelay show ?thesis by (cases secs) simp_all
next
  case (TimingDatetime w)
  assume "rejected_timing tm"
  with TimingDatetime show ?thesis by (cases w) simp_all
qed simp_all

text \<open>
  C4. A create-task request whose timing is missing or invalid, of an unsupported
  variant, of variant \<open>natural\<close>, a delay with seconds that are not finite or not
  positive, or a datetime that does not parse, is answered with status 400, and the
  instance is left exactly as it was: no task record, no index entry and no event is
  written.
\<close>

theorem fetch_POST_tasks_rejects:
  "rejected_request request \<Longrightarrow>
     status (fst (fetch_POST_tasks env request s)) = 400
     \<and> snd (fetch_POST_tasks env request s) = s"
proof (cases request)
  case None
  then show ?thesis by (simp add: fetch_POST_tasks_def json_def)
next
  case (Some body)
  assume "rejected_request request"
  with Some obtain msg where "validate_timing (body_timing body) = Some msg"
    using validate_rejected by (auto simp: rejected_request_def)
  with Some show ?thesis by (simp add: fetch_POST_tasks_def json_def)
qed

theorem fetch_POST_tasks_rejects_witness:
  "rejected_request (Some (sample_body (TimingNatural ''tomorrow morning'')))
   \<and> fetch_POST_tasks (sample_env_at 1000) (Some (sample_body (TimingNatural ''tomorrow morning'')))
        new_TaskScheduler
      = (Response 400 (ErrorJson
           ''Timing type 'natural' must be converted to 'datetime' before creation''),
         new_TaskScheduler)
   \<and> rejected_request (Some (sample_body (TimingDelay (Num 0))))
   \<and> snd (fetch_POST_tasks (sample_env_at 1000) (Some (sample_body (TimingDelay (Num 0))))
        new_TaskScheduler) = new_TaskScheduler"
proof -
  have h1: "rejected_request (Some (sample_body (TimingNatural ''tomorrow morning'')))"
    by (simp add: rejected_request_def sample_body_def)
  have h2: "rejected_request (Some (sample_body (TimingDelay (Num 0))))"
    by (simp add: rejected_request_def sample_body_def)
  have r1: "fst (fetch_POST_tasks (sample_env_at 1000) (Some (sample_body (TimingNatural ''tomorrow morning'')))
        new_TaskScheduler)
      = Response 400 (ErrorJson
           ''Timing type 'natural' must be converted to 'datetime' before creation'')"
    by (simp add: fetch_POST_tasks_def json_def sample_body_def)
  from fetch_POST_tasks_rejects [OF h1, of "sample_env_at 1000" new_TaskScheduler]
    fetch_POST_tasks_rejects [OF h2, of "sample_env_at 1000" new_TaskScheduler] h1 h2 r1
  show ?thesis by (simp add: prod_eq_iff)
qed

lemma computeNext_None_iff:
  "computeNextFromSimpleCron expr d = None \<longleftrightarrow> \<not> (\<exists>M. supported_interval (trim expr) M)"
proof (cases "match_every_n_minutes (trim expr)")
  case None
  have "\<not> every_n_minutes (trim expr) M" for M
  proof
    assume "every_n_minutes (trim expr) M"
    then obtain ds where "ds \<noteq> [] \<and> list_all is_digit ds \<and> trim expr = ''*/'' @ ds @ '' * * * *''"
      unfolding every_n_minutes_def by blast
    then have "match_every_n_minutes (trim expr) = Some ds"
      by (rule match_Some_iff [THEN iffD2])
    with None show False by simp
  qed
  with None show ?thesis
    by (simp add: computeNextFromSimpleCron_def supported_interval_def)
next
  case (Some ds)
  then have shape: "ds \<noteq> [] \<and> list_all is_digit ds \<and> trim expr = ''*/'' @ ds @ '' * * * *''"
    by (rule match_Some_iff [THEN iffD1])
  have "(\<exists>M. supported_interval (trim expr) M)
        \<longleftrightarrow> 0 < decimal_value ds \<and> decimal_value ds < double_overflow"
  proof
    assume "\<exists>M. supported_interval (trim expr) M"
    then obtain M es where M: "0 < M" "M < double_overflow" "M = decimal_value es"
      and es: "trim expr = ''*/'' @ es @ '' * * * *''"
      unfolding supported_interval_def every_n_minutes_def by blast
    from es shape have "es = ds" by simp
    with M show "0 < decimal_value ds \<and> decimal_value ds < double_overflow" by simp
  next
    assume "0 < decimal_value ds \<and> decimal_value ds < double_overflow"
    with shape show "\<exists>M. supported_interval (trim expr) M"
      unfolding supported_interval_def every_n_minutes_def by blast
  qed
  with Some show ?thesis
    by (cases "getTime d")
      (auto simp: computeNextFromSimpleCron_def Number_of_digits_def Let_def)
qed

lemma dropWhile_self: "ys = [] \<or> \<not> P (hd ys) \<Longrightarrow> dropWhile P ys = ys"
  by (cases ys) auto

lemma hd_rev_dropWhile_rev:
  assumes "rev (dropWhile P (rev xs)) \<noteq> []"
  shows "hd (rev (dropWhile P (rev xs))) = hd xs \<and> xs \<noteq> []"
proof -
  have "rev xs = takeWhile P (rev xs) @ dropWhile P (rev xs)" by simp
  then have "rev (rev xs) = rev (takeWhile P (rev xs) @ dropWhile P (rev xs))"
    by (rule arg_cong)
  then have "xs = rev (dropWhile P (rev xs)) @ rev (takeWhile P (rev xs))"
    by (simp only: rev_rev_ident rev_append)
  with assms show ?thesis
    by (metis hd_append2 Nil_is_append_conv)
qed

lemma trim_idem: "trim (trim s) = trim s"
proof -
  let ?P = is_js_space
  let ?xs = "dropWhile ?P s"
  let ?ys = "rev (dropWhile ?P (rev ?xs))"
  have "?ys = [] \<or> \<not> ?P (hd ?ys)"
  proof (cases "?ys = []")
    case True
    then show ?thesis by (rule disjI1)
  next
    case False
    then have "hd ?ys = hd ?xs \<and> ?xs \<noteq> []" by (rule hd_rev_dropWhile_rev)
    moreover from this have "\<not> ?P (hd ?xs)" using hd_dropWhile by blast
    ultimately show ?thesis by simp
  qed
  then have front: "dropWhile ?P ?ys = ?ys" by (rule dropWhile_self)
  have "trim (trim s) = rev (dropWhile ?P (rev (dropWhile ?P ?ys)))"
    by (simp add: trim_def)
  also have "\<dots> = rev (dropWhile ?P (rev ?ys))" by (simp only: front)
  also have "\<dots> = ?ys" by simp
  finally show ?thesis by (simp add: trim_def)
qed


lemma computeNext_trim_None:
  "\<not> (\<exists>N. supported_interval (trim c) N) \<Longrightarrow> computeNextFromSimpleCron (trim c) d = None"
  by (simp add: computeNext_None_iff trim_idem)

text \<open>
  C5. A create-task request with timing \<open>recurring\<close> whose cron is not a supported
  "every N minutes" expression is answered with status 201 and the task is persisted
  (stored under its id, its id appended to the index), without a \<open>nextRun\<close>; no wake
  is armed for it.
\<close>

theorem fetch_POST_tasks_unsupported_cron:
  assumes "body_timing body = TimingRecurring (Some c)"
    and "\<not> (\<exists>N. supported_interval (trim c) N)"
  shows "\<exists>task. fst (fetch_POST_tasks env (Some body) s) = Response 201 (TaskJson task)
           \<and> timing task = Recurring c \<and> nextRun task = None
           \<and> storage_tasks (snd (fetch_POST_tasks env (Some body) s)) (task_id task) = Some task
           \<and> index_of (snd (fetch_POST_tasks env (Some body) s)) = index_of s @ [task_id task]
           \<and> pendingAlarmIso (snd (fetch_POST_tasks env (Some body) s)) = pendingAlarmIso s
           \<and> armed_wakes (snd (fetch_POST_tasks env (Some body) s)) = armed_wakes s"
proof -
  have nxt: "initial_nextRun env (TimingRecurring (Some c)) s2
               = (Returned (Recurring c, None), tick s2)" for s2
    using assms(2) by (simp add: computeNext_trim_None)
  show ?thesis
    using assms(1)
    by (simp add: fetch_POST_tasks_def nxt Let_def persist_created_def schedule_created_def
        json_def appendEvents_def index_of_def armed_wakes_def tick_def next_uuid_def
        del: initial_nextRun.simps)
qed

theorem fetch_POST_tasks_unsupported_cron_witness:
  "body_timing (sample_body (TimingRecurring (Some ''0 9 * * 1''))) = TimingRecurring (Some ''0 9 * * 1'')
   \<and> \<not> (\<exists>N. supported_interval (trim ''0 9 * * 1'') N)
   \<and> status (fst (fetch_POST_tasks (sample_env_at 1000)
          (Some (sample_body (TimingRecurring (Some ''0 9 * * 1'')))) new_TaskScheduler)) = 201
   \<and> map_option nextRun (storage_tasks (snd (fetch_POST_tasks (sample_env_at 1000)
          (Some (sample_body (TimingRecurring (Some ''0 9 * * 1'')))) new_TaskScheduler)) ''u'')
       = Some None
   \<and> index_of (snd (fetch_POST_tasks (sample_env_at 1000)
          (Some (sample_body (TimingRecurring (Some ''0 9 * * 1'')))) new_TaskScheduler)) = [''u'']"
proof -
  let ?b = "sample_body (TimingRecurring (Some ''0 9 * * 1''))"
  have h1: "body_timing ?b = TimingRecurring (Some ''0 9 * * 1'')"
    by (simp add: sample_body_def)
  have "computeNextFromSimpleCron ''0 9 * * 1'' (Date 0) = None"
    by (simp add: computeNextFromSimpleCron_def trim_def is_js_space_def
        match_every_n_minutes_def)
  then have h2: "\<not> (\<exists>N. supported_interval (trim ''0 9 * * 1'') N)"
    by (rule computeNext_None_iff [THEN iffD1])
  from fetch_POST_tasks_unsupported_cron [OF h1 h2, of "sample_env_at 1000" new_TaskScheduler]
  obtain task where t: "fst (fetch_POST_tasks (sample_env_at 1000) (Some ?b) new_TaskScheduler)
        = Response 201 (TaskJson task)"
      "nextRun task = None"
      "storage_tasks (snd (fetch_POST_tasks (sample_env_at 1000) (Some ?b) new_TaskScheduler)) (task_id task)
        = Some task"
      "index_of (snd (fetch_POST_tasks (sample_env_at 1000) (Some ?b) new_TaskScheduler))
        = index_of new_TaskScheduler @ [task_id task]"
    by blast
  have "fst (fetch_POST_tasks (sample_env_at 1000) (Some ?b) new_TaskScheduler)
        = Response 201 (TaskJson
            \<lparr>task_id = ''u'', title = ''Heartbeat'', description = None, createdAt = Iso 1000,
             nextRun = None, timing = Recurring ''0 9 * * 1'', recurrence = None, enabled = True,
             metadata = []\<rparr>)"
    using h2
    by (simp add: fetch_POST_tasks_def sample_body_def computeNext_trim_None Let_def
        persist_created_def schedule_created_def json_def uuid_def sample_env_at_def
        new_TaskScheduler_def now_def next_uuid_def)
  with t(1) have "task_id task = ''u''" by auto
  with t h1 h2 show ?thesis
    by (simp add: index_of_def new_TaskScheduler_def)
qed

section \<open>Lifecycle Controller: one round of the loop\<close>

lemma computeNext_Some_time:
  assumes "computeNextFromSimpleCron expr (Date t) = Some d" and "getTime d = Some nt"
  shows "\<exists>N. 0 < N \<and> nt = t + N * 60000 \<and> toISOString (new_Date nt) = Some (Iso nt)"
proof -
  from assms(1) obtain ds where d: "d = new_Date (t + decimal_value ds * 60000)"
    and pos: "0 < decimal_value ds"
    by (auto simp: computeNext_of_match split: option.splits if_splits)
  from d assms(2) have "nt = t + decimal_value ds * 60000 \<and> new_Date nt = Date nt"
    by (auto simp: new_Date_def split: if_splits)
  with pos show ?thesis by auto
qed

lemma is_due_step:
  "storage_tasks s x = Some task \<Longrightarrow> is_due eff task \<Longrightarrow>
     alarm_step env eff x earliest fe s = fire_task env x task earliest fe s"
  by (cases "nextRun task"; cases "the (nextRun task)")
    (auto simp: alarm_step_def is_due_def)


lemma fire_task_no_recurrence:
  "no_recurrence task \<Longrightarrow>
     \<exists>evt s1. fire_task env x task earliest fe s = (Returned (earliest, fe @ [evt]), s1)
       \<and> taskId evt = x \<and> kind evt = fired \<and> ev_note evt = ''Task completed''
       \<and> storage_tasks s1 = (storage_tasks s)(x \<mapsto> task\<lparr>enabled := False, nextRun := None\<rparr>)
       \<and> storage_index s1 = storage_index s \<and> storage_events s1 = storage_events s"
  by (simp add: fire_task_def record_fired_def Let_def tick_def next_uuid_def)








section \<open>Lifecycle Controller: the loop over the index\<close>








section \<open>Lifecycle Controller: wake cycles that return\<close>

text \<open>
  The only statements of \<open>alarm\<close> that can throw are the calls of \<open>toISOString\<close> on a
  date beyond the range of time values. An instance that is safe for a wake cycle
  stays so during the loop, and the cycle returns.
\<close>

lemma computeNext_Some_range:
  assumes "computeNextFromSimpleCron expr (Date t) = Some d" and "getTime d = Some nt"
  shows "in_time_range nt"
proof -
  from assms(1) obtain v where "d = new_Date v"
    by (auto simp: computeNext_of_match split: option.splits if_splits)
  with assms(2) show ?thesis
    by (auto simp: new_Date_def in_time_range_def split: if_splits)
qed

lemma reschedulable_fields:
  assumes "timing t1 = timing t0" and "recurrence t1 = recurrence t0"
  shows "reschedulable env t1 = reschedulable env t0"
proof -
  from assms have "cronExpr_of t1 = cronExpr_of t0"
    by (cases "timing t0") (simp_all add: cronExpr_of_def)
  moreover from assms have "no_recurrence t1 = no_recurrence t0"
    by (simp add: no_recurrence_def)
  ultimately show ?thesis by (simp add: reschedulable_def)
qed

lemma stored_tasks_safe_update:
  assumes "stored_tasks_safe env s" and "storage_tasks s x = Some task"
    and "storage_tasks s1 = (storage_tasks s)(x \<mapsto> task1)"
    and "timing task1 = timing task" and "recurrence task1 = recurrence task"
    and "\<forall>t. nextRun task1 = Some (Iso t) \<longrightarrow> in_time_range t"
  shows "stored_tasks_safe env s1"
  unfolding stored_tasks_safe_def
proof (intro allI impI)
  fix ident tk assume a: "storage_tasks s1 ident = Some tk"
  show "reschedulable env tk \<and> (\<forall>t. nextRun tk = Some (Iso t) \<longrightarrow> in_time_range t)"
  proof (cases "ident = x")
    case True
    with a assms(3) have "tk = task1" by simp
    moreover from assms(1,2) have "reschedulable env task" by (simp add: stored_tasks_safe_def)
    ultimately show ?thesis using assms(4,5,6) reschedulable_fields by blast
  next
    case False
    with a assms(3) have "storage_tasks s ident = Some tk" by simp
    with assms(1) show ?thesis by (simp add: stored_tasks_safe_def)
  qed
qed



lemma fire_task_safe:
  assumes "stored_tasks_safe env s" and "storage_tasks s x = Some task"
    and "earliest_in_range earliest"
  shows "\<exists>e1 fe1 s1. fire_task env x task earliest fe s = (Returned (e1, fe1), s1)
           \<and> stored_tasks_safe env s1 \<and> earliest_in_range e1"
proof (cases "no_recurrence task")
  case True
  from fire_task_no_recurrence [OF True, of env x earliest fe s]
  obtain evt s1 where f: "fire_task env x task earliest fe s = (Returned (earliest, fe @ [evt]), s1)"
    and s1: "storage_tasks s1 = (storage_tasks s)(x \<mapsto> task\<lparr>enabled := False, nextRun := None\<rparr>)"
    by blast
  from assms(1,2) s1 have "stored_tasks_safe env s1"
    by (rule stored_tasks_safe_update) simp_all
  with f assms(3) show ?thesis by blast
next
  case False
  let ?t = "Date_now env (Suc (clock_reads s))"
  let ?s2 = "tick ((tick s)\<lparr>storage_lastRun := (storage_lastRun s)(x \<mapsto> Iso (now env s))\<rparr>)"
  show ?thesis
  proof (cases "computeNextFromSimpleCron (cronExpr_of task) (Date ?t)")
    case None
    with False have f: "fire_task env x task earliest fe s
        = record_fired env x (task\<lparr>enabled := False, nextRun := None\<rparr>)
            ''Recurring task disabled (invalid cron)'' (Iso (now env s)) earliest fe ?s2"
      by (simp add: fire_task_def Let_def now_def tick_def)
    obtain r s1 where rf: "fire_task env x task earliest fe s = (r, s1)"
      by (cases "fire_task env x task earliest fe s")
    with f have r: "r = Returned (earliest, fe @ [\<lparr>ev_id = uuid env ?s2, taskId = x,
                 ev_title = (if title task = [] then ''Untitled task'' else title task),
                 kind = fired, occurredAt = Iso (now env s), ev_nextRun = None,
                 ev_note = ''Recurring task disabled (invalid cron)''\<rparr>])"
      and s1: "storage_tasks s1 = (storage_tasks s)(x \<mapsto> task\<lparr>enabled := False, nextRun := None\<rparr>)"
      by (auto simp: record_fired_def Let_def tick_def next_uuid_def uuid_def)
    from assms(1,2) s1 have "stored_tasks_safe env s1"
      by (rule stored_tasks_safe_update) simp_all
    with rf r assms(3) show ?thesis by blast
  next
    case (Some d)
    from assms(1,2) False have "d \<noteq> InvalidDate"
      using Some by (auto simp: stored_tasks_safe_def reschedulable_def)
    then obtain nt where nt: "getTime d = Some nt" by (cases d) simp_all
    from computeNext_Some_time [OF Some nt]
    have iso: "toISOString (new_Date nt) = Some (Iso nt)" by blast
    from computeNext_Some_range [OF Some nt] have rng: "in_time_range nt" .
    let ?e1 = "case earliest of None \<Rightarrow> Some nt | Some e \<Rightarrow> if nt < e then Some nt else Some e"
    from False Some nt iso have f: "fire_task env x task earliest fe s
        = record_fired env x (task\<lparr>nextRun := Some (Iso nt)\<rparr>)
            ''Recurring task rescheduled'' (Iso (now env s)) ?e1 fe ?s2"
      by (simp add: fire_task_def Let_def now_def tick_def)
    obtain r s1 where rf: "fire_task env x task earliest fe s = (r, s1)"
      by (cases "fire_task env x task earliest fe s")
    with f have r: "\<exists>evt. r = Returned (?e1, fe @ [evt])"
      and s1: "storage_tasks s1 = (storage_tasks s)(x \<mapsto> task\<lparr>nextRun := Some (Iso nt)\<rparr>)"
      by (auto simp: record_fired_def Let_def tick_def next_uuid_def uuid_def)
    from assms(1,2) s1 have "stored_tasks_safe env s1"
      by (rule stored_tasks_safe_update) (simp_all add: rng)
    moreover from assms(3) rng have "earliest_in_range ?e1"
      by (cases earliest) (simp_all add: earliest_in_range_def)
    ultimately show ?thesis using rf r by blast
  qed
qed

lemma alarm_step_safe:
  assumes "stored_tasks_safe env s" and "earliest_in_range earliest"
  shows "\<exists>e1 fe1 s1. alarm_step env eff x earliest fe s = (Returned (e1, fe1), s1)
           \<and> stored_tasks_safe env s1 \<and> earliest_in_range e1"
proof (cases "storage_tasks s x")
  case None
  with assms show ?thesis by (simp add: alarm_step_def)
next
  case (Some task)
  show ?thesis
  proof (cases "is_due eff task")
    case True
    with Some fire_task_safe [OF assms(1) Some assms(2), of fe] show ?thesis
      by (simp add: is_due_step)
  next
    case False
    from assms(1) Some have "\<forall>t. nextRun task = Some (Iso t) \<longrightarrow> in_time_range t"
      by (simp add: stored_tasks_safe_def)
    with False Some assms show ?thesis
      by (cases "nextRun task"; cases "the (nextRun task)")
        (auto simp: alarm_step_def is_due_def earliest_in_range_def)
  qed
qed

lemma alarm_loop_safe:
  "stored_tasks_safe env s \<Longrightarrow> earliest_in_range earliest \<Longrightarrow>
     \<exists>e1 fe1 s1. alarm_loop env eff idx earliest fe s = (Returned (e1, fe1), s1)
       \<and> earliest_in_range e1"
proof (induction idx arbitrary: earliest fe s)
  case Nil
  then show ?case by simp
next
  case (Cons x idx)
  from alarm_step_safe [OF Cons.prems, of eff x fe]
  obtain e0 fe0 s0 where st: "alarm_step env eff x earliest fe s = (Returned (e0, fe0), s0)"
    and safe: "stored_tasks_safe env s0" "earliest_in_range e0"
    by blast
  from Cons.IH [OF safe, of fe0] st show ?case by simp
qed

lemma scheduleAlarm_valid_returns: "fst (scheduleAlarm env (Date t) s) = Returned ()"
  by (simp add: scheduleAlarm.simps Let_def)

lemma rearm_returns:
  assumes "\<forall>k. in_time_range (Date_now env k + 500)" and "earliest_in_range earliest"
  shows "fst (rearm env earliest s) = Returned ()"
proof (cases earliest)
  case None
  then show ?thesis by (simp add: rearm_def)
next
  case (Some e)
  with assms(2) have "new_Date e = Date e"
    by (simp add: earliest_in_range_def in_time_range_def new_Date_def)
  moreover from assms(1) have "new_Date (now env (tick s) + 500) = Date (now env (tick s) + 500)"
    by (simp add: in_time_range_def new_Date_def now_def)
  ultimately show ?thesis using Some
    by (simp add: rearm_def scheduleAlarm_valid_returns)
qed

lemma alarm_returns:
  assumes "wake_cycle_safe env s"
  shows "fst (alarm env s) = Returned ()"
proof -
  from assms have "stored_tasks_safe env (alarm_begin env s)"
    by (simp add: wake_cycle_safe_def stored_tasks_safe_def alarm_begin_def Let_def tick_def)
  moreover have "earliest_in_range None" by (simp add: earliest_in_range_def)
  ultimately obtain e1 fe1 s1 where
    "alarm_loop env (effectiveNow_of env s) (index_of (alarm_begin env s)) None []
       (alarm_begin env s) = (Returned (e1, fe1), s1)"
    and "earliest_in_range e1"
    using alarm_loop_safe by blast
  with assms show ?thesis
    by (simp add: alarm_def alarm_scan_def rearm_returns wake_cycle_safe_def)
qed

section \<open>The handlers on the sample values\<close>

lemmas wake_cycle_defs =
  alarm_def alarm_scan_def alarm_begin_def effectiveNow_of_def index_of_def alarm_step_def
  fire_task_def cronExpr_of_def record_fired_def no_recurrence_def appendEvents_def rearm_def
  now_def tick_def uuid_def next_uuid_def stored_events_def TOLERANCE_MS_def MIN_FUTURE_MS_def Let_def
  fired_batch_def EVENT_HISTORY_LIMIT_def


lemmas cron_eval_defs =
  computeNextFromSimpleCron_def trim_def is_js_space_def match_every_n_minutes_def is_digit_def
  Number_of_digits_def decimal_value_def double_overflow_def new_Date_of_def new_Date_def
  trunc_ms_def max_time_value_def




section \<open>Lifecycle Controller: the wake cycle\<close>


lemma appendEvents_tasks [simp]:
  "storage_tasks (appendEvents events s) = storage_tasks s"
  "storage_index (appendEvents events s) = storage_index s"
  by (simp_all add: appendEvents_def Let_def)

lemma arm_wake_storage [simp]:
  "storage_tasks (arm_wake env t s) = storage_tasks s"
  "storage_index (arm_wake env t s) = storage_index s"
  "storage_events (arm_wake env t s) = storage_events s"
  by (simp_all add: arm_wake_def Let_def tick_def)

lemma scheduleAlarm_storage [simp]:
  "storage_tasks (snd (scheduleAlarm env d s)) = storage_tasks s"
  "storage_index (snd (scheduleAlarm env d s)) = storage_index s"
  "storage_events (snd (scheduleAlarm env d s)) = storage_events s"
  by (cases d; simp add: scheduleAlarm.simps Let_def tick_def)+

lemma rearm_storage [simp]:
  "storage_tasks (snd (rearm env earliest s)) = storage_tasks s"
  "storage_index (snd (rearm env earliest s)) = storage_index s"
  "storage_events (snd (rearm env earliest s)) = storage_events s"
  by (cases earliest; simp add: rearm_def tick_def)+

lemma alarm_begin_storage [simp]:
  "storage_tasks (alarm_begin env s) = storage_tasks s"
  "storage_index (alarm_begin env s) = storage_index s"
  "storage_events (alarm_begin env s) = storage_events s"
  by (simp_all add: alarm_begin_def Let_def tick_def)

lemma index_of_alarm_begin [simp]: "index_of (alarm_begin env s) = index_of s"
  by (simp add: index_of_def)






section \<open>Lifecycle Controller: two wake cycles at the same instant\<close>






lemma due_at_cong:
  "storage_tasks s1 = storage_tasks s \<Longrightarrow> due_at eff s1 ident = due_at eff s ident"
  by (simp add: due_at_def)









section \<open>Lifecycle Controller: a task created with a recurring timing\<close>

lemma computeNext_supported:
  assumes "supported_interval (trim expr) N"
  shows "computeNextFromSimpleCron expr (Date t) = Some (new_Date (t + N * 60000))"
proof -
  from assms obtain ds where "match_every_n_minutes (trim expr) = Some ds" "N = decimal_value ds"
    unfolding supported_interval_def every_n_minutes_def using match_Some_iff by blast
  with assms show ?thesis
    by (simp add: computeNext_of_match supported_interval_def)
qed

text \<open>
  The branch of lines 293 to 300 reschedules: a due task whose legacy \<open>recurrence\<close>
  string is set and whose cron is supported keeps \<open>enabled\<close>, gets the \<open>nextRun\<close>
  "clock plus \<open>N\<close> minutes" and the note "Recurring task rescheduled".
\<close>

lemma fire_task_reschedules:
  assumes "\<not> no_recurrence task"
    and "supported_interval (trim (cronExpr_of task)) N"
    and "in_time_range (Date_now env (Suc (clock_reads s)) + N * 60000)"
  shows "\<exists>e1 evt s1. fire_task env x task earliest fe s = (Returned (e1, fe @ [evt]), s1)
           \<and> ev_note evt = ''Recurring task rescheduled'' \<and> occurredAt evt = Iso (now env s)
           \<and> storage_tasks s1 x
               = Some (task\<lparr>nextRun := Some (Iso (Date_now env (Suc (clock_reads s)) + N * 60000))\<rparr>)"
proof -
  let ?nt = "Date_now env (Suc (clock_reads s)) + N * 60000"
  from assms(3) have "new_Date ?nt = Date ?nt"
    by (simp add: in_time_range_def new_Date_def)
  with computeNext_supported [OF assms(2), of "Date_now env (Suc (clock_reads s))"]
  have "computeNextFromSimpleCron (cronExpr_of task) (Date (Date_now env (Suc (clock_reads s))))
        = Some (Date ?nt)"
    by simp
  with assms(1) \<open>new_Date ?nt = Date ?nt\<close> show ?thesis
    by (simp add: fire_task_def record_fired_def Let_def now_def tick_def next_uuid_def)
qed

text \<open>
  C1. A task is created with timing \<open>recurring\<close> and the cron \<open>*/5 * * * *\<close>, without
  the legacy \<open>recurrence\<close> field, at time 1000; its \<open>nextRun\<close> is 301000. The wake cycle
  at 301000 finds it due and, since \<open>task.recurrence\<close> is \<open>null\<close>, handles it as a
  single-run task: it is disabled, its \<open>nextRun\<close> is cleared and the event carries the
  note "Task completed".
\<close>

theorem alarm_recurring_timing_completed:
  "(let created_state = snd (fetch_POST_tasks (sample_env_at 1000)
        (Some (sample_body (TimingRecurring (Some ''*/5 * * * *'')))) new_TaskScheduler);
        woken_state = snd (alarm (sample_env_at 301000) created_state)
    in map_option nextRun (storage_tasks created_state ''u'') = Some (Some (Iso 301000))
       \<and> map_option timing (storage_tasks created_state ''u'') = Some (Recurring ''*/5 * * * *'')
       \<and> map_option enabled (storage_tasks created_state ''u'') = Some True
       \<and> map_option enabled (storage_tasks woken_state ''u'') = Some False
       \<and> map_option nextRun (storage_tasks woken_state ''u'') = Some None
       \<and> map ev_note (fired_batch (sample_env_at 301000) created_state) = [''Task completed''])"
proof -
  let ?c = "snd (fetch_POST_tasks (sample_env_at 1000)
        (Some (sample_body (TimingRecurring (Some ''*/5 * * * *'')))) new_TaskScheduler)"
  have nx: "computeNextFromSimpleCron ''*/5 * * * *'' (Date 1000) = Some (Date 301000)"
    by (simp add: cron_eval_defs)
  have tr: "trim ''*/5 * * * *'' = ''*/5 * * * *''"
    by (simp add: trim_def is_js_space_def)
  have c: "?c = \<lparr>storage_tasks = [''u'' \<mapsto>
                   \<lparr>task_id = ''u'', title = ''Heartbeat'', description = None,
                    createdAt = Iso 1000, nextRun = Some (Iso 301000),
                    timing = Recurring ''*/5 * * * *'', recurrence = None, enabled = True,
                    metadata = []\<rparr>],
               storage_lastRun = Map.empty, storage_index = Some [''u''],
               storage_events = Some [\<lparr>ev_id = ''uu'', taskId = ''u'', ev_title = ''Heartbeat'',
                    kind = created, occurredAt = Iso 1000, ev_nextRun = Some (Iso 301000),
                    ev_note = ''Timing''\<rparr>],
               localTimers = [301000], pendingAlarmIso = Some (Iso 301000),
               lastAlarmIso = None, durable_alarm = None, microtasks = 0, clock_reads = 5,
               uuid_reads = 2\<rparr>"
    by (simp add: fetch_POST_tasks_def sample_body_def tr nx persist_created_def
        schedule_created_def create_event_def json_def appendEvents_def stored_events_def
        EVENT_HISTORY_LIMIT_def scheduleAlarm.simps JITTER_MS_def pending_covers_def arm_wake_def
        new_Date_def max_time_value_def now_def tick_def uuid_def next_uuid_def Let_def
        sample_env_at_def new_TaskScheduler_def)
  show ?thesis
    unfolding Let_def c
    by (simp add: wake_cycle_defs sample_env_at_def)
qed

end
